theory Spec2Isabelle
  imports Main "HOL-Library.Sublist" "HOL-Library.Multiset"
begin

section \<open>Strings: Python's \<open>str.replace\<close>\<close>

text \<open>
  \<open>s.replace(old, new)\<close> scans \<open>s\<close> from the left and substitutes every
  non-overlapping occurrence of \<open>old\<close>. An empty \<open>old\<close> matches before every
  character and at the end. Strings are byte lists here; the four patterns of the job
  are ASCII characters, which never occur inside a multi-byte UTF-8 sequence, so the
  byte-wise scan and Python's scan over code points agree on them.
\<close>

function str_replace :: "string \<Rightarrow> string \<Rightarrow> string \<Rightarrow> string" where
  "str_replace old new [] = (if old = [] then new else [])"
| "str_replace old new (c # cs) =
     (if old = [] then new @ c # str_replace old new cs
      else if prefix old (c # cs)
        then new @ str_replace old new (drop (length old) (c # cs))
      else c # str_replace old new cs)"
  by pat_completeness auto
termination
  by (relation "measure (\<lambda>(old, new, s). length s)") auto

section \<open>The table of the dataframe engine\<close>

text \<open>
  A dataframe is a list of column names and a list of rows; a row holds one cell per
  column. A cell is \<open>None\<close> when the value is missing (the engine's null) and
  \<open>Some v\<close> otherwise. The type of the values is left open: the loader infers it.
\<close>

record 'v table =
  columns :: "string list"
  rows :: "'v option list list"

definition wf_table :: "'v table \<Rightarrow> bool" where
  "wf_table t = list_all (\<lambda>row. length row = length (columns t)) (rows t)"

datatype error =
    TypeError
  | IllegalArgument
  | AnalysisException string

text \<open>\<open>df.toDF(*names)\<close>: the same rows under new column names, one per column.\<close>

definition toDF :: "'v table \<Rightarrow> string list \<Rightarrow> error + 'v table" where
  "toDF df names =
     (if length names \<noteq> length (columns df) then Inl IllegalArgument
      else Inr (df\<lparr>columns := names\<rparr>))"

section \<open>Data cleaning: column names\<close>

text \<open>The chain of four \<open>replace\<close> calls applied to one column name.\<close>

definition clean_column_name :: "string \<Rightarrow> string" where
  "clean_column_name col_name =
     str_replace '','' ''''
       (str_replace ''.'' ''''
         (str_replace ''/'' ''''
           (str_replace '' '' ''_'' col_name)))"

definition new_column_names :: "'v table \<Rightarrow> string list" where
  "new_column_names df = map clean_column_name (columns df)"

definition rename_columns :: "'v table \<Rightarrow> error + 'v table" where
  "rename_columns df = toDF df (new_column_names df)"

text \<open>What the claim describes: the four characters deleted.\<close>

definition delete_punctuation :: "string \<Rightarrow> string" where
  "delete_punctuation s =
     filter (\<lambda>c. c \<noteq> CHR '' '' \<and> c \<noteq> CHR ''/'' \<and> c \<noteq> CHR ''.'' \<and> c \<noteq> CHR '','') s"

text \<open>What the code does, character by character.\<close>

definition clean_char :: "char \<Rightarrow> string" where
  "clean_char c =
     (if c = CHR '' '' then ''_''
      else if c = CHR ''/'' \<or> c = CHR ''.'' \<or> c = CHR '','' then ''''
      else [c])"

section \<open>Data filtering: \<open>dropna\<close> and \<open>select\<close>\<close>

datatype how = HowAny | HowAll

definition count_non_null :: "'v option list \<Rightarrow> nat" where
  "count_non_null row = length (filter (\<lambda>c. c \<noteq> None) row)"

text \<open>
  \<open>df.dropna(how)\<close> with no \<open>thresh\<close> and no \<open>subset\<close>: the subset is every
  column, the threshold is the number of columns for \<open>'any'\<close> and 1 for \<open>'all'\<close>,
  and a row is kept when at least that many of its cells are present. (For the engine
  a cell of a floating column that holds not-a-number is as absent as a null one;
  both are \<open>None\<close> in a table here.)
\<close>

definition dropna :: "how \<Rightarrow> 'v table \<Rightarrow> 'v table" where
  "dropna h df =
     (let thresh = (case h of HowAny \<Rightarrow> length (columns df) | HowAll \<Rightarrow> 1)
      in df\<lparr>rows := filter (\<lambda>row. thresh \<le> count_non_null row) (rows df)\<rparr>)"

text \<open>
  A column name of a query is resolved against the table's columns by the engine's
  resolver (case-insensitive comparison by default, equality when the session is case
  sensitive); it is a parameter. No match and more than one match are analysis errors.
\<close>

definition resolve :: "(string \<Rightarrow> string \<Rightarrow> bool) \<Rightarrow> string list \<Rightarrow> string \<Rightarrow> error + nat" where
  "resolve resolver cols name =
     (case filter (\<lambda>i. resolver (cols ! i) name) [0..<length cols] of
        [] \<Rightarrow> Inl (AnalysisException name)
      | [i] \<Rightarrow> Inr i
      | _ \<Rightarrow> Inl (AnalysisException name))"

fun resolve_all :: "(string \<Rightarrow> string \<Rightarrow> bool) \<Rightarrow> string list \<Rightarrow> string list \<Rightarrow> error + nat list" where
  "resolve_all resolver cols [] = Inr []"
| "resolve_all resolver cols (name # names) =
     (case resolve resolver cols name of
        Inl e \<Rightarrow> Inl e
      | Inr i \<Rightarrow>
          (case resolve_all resolver cols names of
             Inl e \<Rightarrow> Inl e
           | Inr is \<Rightarrow> Inr (i # is)))"

definition project :: "nat list \<Rightarrow> 'v option list \<Rightarrow> 'v option list" where
  "project idxs row = map (\<lambda>i. row ! i) idxs"

definition select :: "(string \<Rightarrow> string \<Rightarrow> bool) \<Rightarrow> 'v table \<Rightarrow> string list \<Rightarrow> error + 'v table" where
  "select resolver df names =
     (case resolve_all resolver (columns df) names of
        Inl e \<Rightarrow> Inl e
      | Inr idxs \<Rightarrow> Inr \<lparr>columns = names, rows = map (project idxs) (rows df)\<rparr>)"

text \<open>Lines 46 to 48 of the job: the rows that are empty throughout go, three columns stay.\<close>

definition filter_data :: "(string \<Rightarrow> string \<Rightarrow> bool) \<Rightarrow> 'v table \<Rightarrow> error + 'v table" where
  "filter_data resolver df =
     select resolver (dropna HowAll df) [''year'', ''country'', ''number_of_issued_numerical'']"

text \<open>The number the job prints as removed: the count before minus the count after.\<close>

definition removed_count :: "'v table \<Rightarrow> 'v table \<Rightarrow> int" where
  "removed_count df df' = int (length (rows df)) - int (length (rows df'))"

definition all_null :: "'v option list \<Rightarrow> bool" where
  "all_null row = list_all (\<lambda>c. c = None) row"

text \<open>Cell values for concrete tables: the loader infers integers and strings.\<close>

datatype val = IntV int | StrV string

section \<open>Country name correction\<close>

text \<open>
  \<open>process.extractOne(query, choices)\<close> of the fuzzy matching library: every choice
  is scored against the query, the choices that reach the score cutoff (0 by default)
  are kept with their scores, and Python's \<open>max\<close> over the scores returns the first
  pair with the greatest score, or nothing when no pair is left. The scorer (the
  library's weighted ratio after its string preprocessing, an integer from 0 to 100)
  is a parameter: \<open>scorer query choice\<close>.
\<close>

definition extractWithoutOrder ::
  "(string \<Rightarrow> string \<Rightarrow> int) \<Rightarrow> string \<Rightarrow> string list \<Rightarrow> int \<Rightarrow> (string \<times> int) list" where
  "extractWithoutOrder scorer query choices score_cutoff =
     [(choice, scorer query choice). choice \<leftarrow> choices, score_cutoff \<le> scorer query choice]"

fun max_by_score :: "(string \<times> int) list \<Rightarrow> (string \<times> int) option" where
  "max_by_score [] = None"
| "max_by_score (x # xs) =
     Some (foldl (\<lambda>best y. if snd best < snd y then y else best) x xs)"

definition extractOne ::
  "(string \<Rightarrow> string \<Rightarrow> int) \<Rightarrow> string \<Rightarrow> string list \<Rightarrow> (string \<times> int) option" where
  "extractOne scorer query choices = max_by_score (extractWithoutOrder scorer query choices 0)"

text \<open>
  \<open>correct_country_name(name, threshold=85)\<close>. The list \<open>countries\<close> is the name
  of every entry of the country database, in its order. Unpacking the result of
  \<open>extractOne\<close> into two variables raises a \<open>TypeError\<close> when there is no result.
\<close>

definition correct_country_name ::
  "(string \<Rightarrow> string \<Rightarrow> int) \<Rightarrow> string list \<Rightarrow> string \<Rightarrow> int \<Rightarrow> error + string" where
  "correct_country_name scorer countries name threshold =
     (case extractOne scorer name countries of
        None \<Rightarrow> Inl TypeError
      | Some (corrected_name, score) \<Rightarrow>
          Inr (if threshold \<le> score then corrected_name else name))"

text \<open>The function as the job registers it: the threshold keeps its default.\<close>

definition correct_country_name_udf ::
  "(string \<Rightarrow> string \<Rightarrow> int) \<Rightarrow> string list \<Rightarrow> string \<Rightarrow> error + string" where
  "correct_country_name_udf scorer countries name = correct_country_name scorer countries name 85"

section \<open>Continent mapping\<close>

text \<open>
  The three conversion functions of the country conversion library are parameters.
  Each returns a string or raises; \<open>Inl e\<close> is the exception raised. The result of
  \<open>get_continent_name\<close> is again a sum, so that raising is a value it could take;
  the value \<open>None\<close> of Python is \<open>Inr None\<close>.
\<close>

definition bind_exn :: "'e + 'a \<Rightarrow> ('a \<Rightarrow> 'e + 'b) \<Rightarrow> 'e + 'b" where
  "bind_exn m f = (case m of Inl e \<Rightarrow> Inl e | Inr x \<Rightarrow> f x)"

text \<open>\<open>try: body except: handler\<close>, the bare \<open>except\<close> catching every exception.\<close>

definition try_except :: "'e + 'a \<Rightarrow> ('e \<Rightarrow> 'e + 'a) \<Rightarrow> 'e + 'a" where
  "try_except body handler = (case body of Inl e \<Rightarrow> handler e | Inr x \<Rightarrow> Inr x)"

definition get_continent_name ::
  "(string \<Rightarrow> 'e + string) \<Rightarrow> (string \<Rightarrow> 'e + string) \<Rightarrow> (string \<Rightarrow> 'e + string) \<Rightarrow>
   string \<Rightarrow> 'e + string option" where
  "get_continent_name country_name_to_country_alpha2 country_alpha2_to_continent_code
       convert_continent_code_to_continent_name country_name =
     try_except
       (bind_exn (country_name_to_country_alpha2 country_name) (\<lambda>country_code.
        bind_exn (country_alpha2_to_continent_code country_code) (\<lambda>continent_code.
        bind_exn (convert_continent_code_to_continent_name continent_code) (\<lambda>continent_name.
        Inr (Some continent_name)))))
       (\<lambda>e. Inr None)"

section \<open>The enriched table and the three queries\<close>

text \<open>
  A row of the view \<open>japan_visa\<close>: every field can be null. The type \<open>'n\<close> of the
  issued count is the numeric type the loader inferred; sums need it to be a
  commutative monoid, the ranking of the second query a linear order.
\<close>

record 'n visa =
  year :: "int option"
  country :: "string option"
  number_of_issued_numerical :: "'n option"
  continent :: "string option"

subsection \<open>Three-valued conditions\<close>

text \<open>A condition is true, false or unknown (\<open>None\<close>); \<open>WHERE\<close> keeps the true rows.\<close>

definition sql_eq :: "'a option \<Rightarrow> 'a option \<Rightarrow> bool option" where
  "sql_eq a b = (case a of None \<Rightarrow> None | Some x \<Rightarrow> (case b of None \<Rightarrow> None | Some y \<Rightarrow> Some (x = y)))"

definition sql_not :: "bool option \<Rightarrow> bool option" where
  "sql_not p = map_option Not p"

definition sql_or :: "bool option \<Rightarrow> bool option \<Rightarrow> bool option" where
  "sql_or p q =
     (if p = Some True \<or> q = Some True then Some True
      else if p = Some False \<and> q = Some False then Some False
      else None)"

definition sql_and :: "bool option \<Rightarrow> bool option \<Rightarrow> bool option" where
  "sql_and p q =
     (if p = Some False \<or> q = Some False then Some False
      else if p = Some True \<and> q = Some True then Some True
      else None)"

fun sql_in :: "'a option \<Rightarrow> 'a option list \<Rightarrow> bool option" where
  "sql_in a [] = Some False"
| "sql_in a (v # vs) = sql_or (sql_eq a v) (sql_in a vs)"

definition sql_not_in :: "'a option \<Rightarrow> 'a option list \<Rightarrow> bool option" where
  "sql_not_in a vs = sql_not (sql_in a vs)"

definition sql_is_not_null :: "'a option \<Rightarrow> bool option" where
  "sql_is_not_null a = Some (a \<noteq> None)"

definition sql_where :: "('r \<Rightarrow> bool option) \<Rightarrow> 'r list \<Rightarrow> 'r list" where
  "sql_where cond rs = filter (\<lambda>r. cond r = Some True) rs"

subsection \<open>Grouped sums\<close>

fun non_nulls :: "'a option list \<Rightarrow> 'a list" where
  "non_nulls [] = []"
| "non_nulls (None # vs) = non_nulls vs"
| "non_nulls (Some v # vs) = v # non_nulls vs"

text \<open>\<open>SUM\<close> skips nulls; over no value at all it is null.\<close>

definition sql_sum :: "'n::comm_monoid_add option list \<Rightarrow> 'n option" where
  "sql_sum vs = (case non_nulls vs of [] \<Rightarrow> None | w # ws \<Rightarrow> Some (sum_list (w # ws)))"

text \<open>
  \<open>GROUP BY\<close>: one output row per distinct key among the rows (null keys are equal to
  each other), carrying the sum over the rows of that key. The order in which the
  engine emits the groups is not fixed by the query; here it is that of \<open>remdups\<close>.
\<close>

definition group_rows :: "('r \<Rightarrow> 'k) \<Rightarrow> 'k \<Rightarrow> 'r list \<Rightarrow> 'r list" where
  "group_rows key k rs = filter (\<lambda>r. key r = k) rs"

definition group_by_sum ::
  "('r \<Rightarrow> 'k) \<Rightarrow> ('r \<Rightarrow> 'n::comm_monoid_add option) \<Rightarrow> 'r list \<Rightarrow> ('k \<times> 'n option) list" where
  "group_by_sum key val rs =
     map (\<lambda>k. (k, sql_sum (map val (group_rows key k rs)))) (remdups (map key rs))"

subsection \<open>Ordering\<close>

text \<open>
  \<open>ORDER BY\<close> as a stable insertion sort under the comparison \<open>le\<close>. Ascending order
  puts nulls first, descending order puts them last (the engine's defaults).
\<close>

fun insert_by :: "('a \<Rightarrow> 'a \<Rightarrow> bool) \<Rightarrow> 'a \<Rightarrow> 'a list \<Rightarrow> 'a list" where
  "insert_by le x [] = [x]"
| "insert_by le x (y # ys) = (if le x y then x # y # ys else y # insert_by le x ys)"

definition order_by :: "('a \<Rightarrow> 'a \<Rightarrow> bool) \<Rightarrow> 'a list \<Rightarrow> 'a list" where
  "order_by le xs = foldr (insert_by le) xs []"

definition asc_nulls_first :: "'a::linorder option \<Rightarrow> 'a option \<Rightarrow> bool" where
  "asc_nulls_first a b =
     (case a of None \<Rightarrow> True | Some x \<Rightarrow> (case b of None \<Rightarrow> False | Some y \<Rightarrow> x \<le> y))"

definition desc_nulls_last :: "'a::linorder option \<Rightarrow> 'a option \<Rightarrow> bool" where
  "desc_nulls_last a b =
     (case b of None \<Rightarrow> True | Some y \<Rightarrow> (case a of None \<Rightarrow> False | Some x \<Rightarrow> y \<le> x))"

subsection \<open>The queries\<close>

definition sentinels :: "string option list" where
  "sentinels = [Some ''total'', Some ''others'']"

text \<open>Q1: \<open>WHERE continent IS NOT NULL GROUP BY year, continent\<close>.\<close>

definition df_cont_where :: "'n visa \<Rightarrow> bool option" where
  "df_cont_where r = sql_is_not_null (continent r)"

definition df_cont :: "'n::comm_monoid_add visa list \<Rightarrow> ((int option \<times> string option) \<times> 'n option) list" where
  "df_cont japan_visa =
     group_by_sum (\<lambda>r. (year r, continent r)) number_of_issued_numerical
       (sql_where df_cont_where japan_visa)"

text \<open>
  Q2: \<open>WHERE country NOT IN ('total', 'others') AND year = 2017 GROUP BY country
  ORDER BY visa_issued DESC LIMIT 10\<close>.
\<close>

definition df_country_where :: "'n visa \<Rightarrow> bool option" where
  "df_country_where r = sql_and (sql_not_in (country r) sentinels) (sql_eq (year r) (Some 2017))"

definition df_country_groups ::
  "'n::{comm_monoid_add,linorder} visa list \<Rightarrow> (string option \<times> 'n option) list" where
  "df_country_groups japan_visa =
     order_by (\<lambda>a b. desc_nulls_last (snd a) (snd b))
       (group_by_sum country number_of_issued_numerical (sql_where df_country_where japan_visa))"

definition df_country ::
  "'n::{comm_monoid_add,linorder} visa list \<Rightarrow> (string option \<times> 'n option) list" where
  "df_country japan_visa = take 10 (df_country_groups japan_visa)"

text \<open>Q3: \<open>WHERE country NOT IN ('total', 'others') GROUP BY year, country ORDER BY year\<close>.\<close>

definition df_geo_where :: "'n visa \<Rightarrow> bool option" where
  "df_geo_where r = sql_not_in (country r) sentinels"

definition df_geo :: "'n::comm_monoid_add visa list \<Rightarrow> ((int option \<times> string option) \<times> 'n option) list" where
  "df_geo japan_visa =
     order_by (\<lambda>a b. asc_nulls_first (fst (fst a)) (fst (fst b)))
       (group_by_sum (\<lambda>r. (year r, country r)) number_of_issued_numerical
         (sql_where df_geo_where japan_visa))"

text \<open>A row of the enriched table, for concrete inputs.\<close>

definition visa_row :: "int option \<Rightarrow> string option \<Rightarrow> 'n option \<Rightarrow> string option \<Rightarrow> 'n visa" where
  "visa_row y c n k = \<lparr>year = y, country = c, number_of_issued_numerical = n, continent = k\<rparr>"

text \<open>The invariant as stated for the cleaned table: year and country present in every row.\<close>

definition year_country_present :: "'v table \<Rightarrow> bool" where
  "year_country_present df = list_all (\<lambda>row. row ! 0 \<noteq> None \<and> row ! 1 \<noteq> None) (rows df)"

text \<open>
  A loaded table for concrete runs: one complete row, one row that is empty
  throughout, and one row whose only value is in a column the projection discards.
\<close>

definition example_table :: "val table" where
  "example_table =
     \<lparr>columns = [''year'', ''country'', ''region'', ''number_of_issued_numerical''],
      rows = [[Some (IntV 2017), Some (StrV ''France''), None, Some (IntV 5)],
              [None, None, None, None],
              [None, None, Some (StrV ''x''), None]]\<rparr>"

definition example_filtered :: "val table" where
  "example_filtered =
     \<lparr>columns = [''year'', ''country'', ''number_of_issued_numerical''],
      rows = [[Some (IntV 2017), Some (StrV ''France''), Some (IntV 5)],
              [None, None, None]]\<rparr>"

text \<open>A small reference list and a scorer for concrete runs of the corrector.\<close>

definition example_countries :: "string list" where
  "example_countries = [''France'', ''Niger'', ''Nigeria'']"

definition example_scorer :: "string \<Rightarrow> string \<Rightarrow> int" where
  "example_scorer query choice =
     (if query = choice then 100 else if prefix query choice then 90 else 20)"

text \<open>Lookup tables for concrete runs of the continent mapper.\<close>

definition example_alpha2 :: "string \<Rightarrow> unit + string" where
  "example_alpha2 n =
     (if n = ''France'' then Inr ''FR'' else if n = ''Antarctica'' then Inr ''AQ'' else Inl ())"

definition example_continent_code :: "string \<Rightarrow> unit + string" where
  "example_continent_code a = (if a = ''FR'' then Inr ''EU'' else Inl ())"

definition example_continent_name :: "string \<Rightarrow> unit + string" where
  "example_continent_name k = (if k = ''EU'' then Inr ''Europe'' else Inl ())"

text \<open>The rows of the scenario for the second query; the continents are left open.\<close>

definition q2_scenario :: "string option \<Rightarrow> string option \<Rightarrow> string option \<Rightarrow> int visa list" where
  "q2_scenario k1 k2 k3 =
     [visa_row (Some 2017) (Some ''FR'') (Some 100) k1,
      visa_row (Some 2017) (Some ''US'') (Some 300) k2,
      visa_row (Some 2017) (Some ''total'') (Some 400) k3]"

text \<open>
  An enriched table for concrete runs: a sentinel row, a row with a null country, a
  row with a null year, rows of another year, and rows with a null issued count.
\<close>

definition example_visa :: "int visa list" where
  "example_visa =
     [visa_row (Some 2017) (Some ''FR'') (Some 100) (Some ''Europe''),
      visa_row (Some 2017) (Some ''US'') (Some 300) (Some ''North America''),
      visa_row (Some 2017) (Some ''total'') (Some 400) None,
      visa_row (Some 2017) None (Some 7) (Some ''Asia''),
      visa_row None (Some ''JP'') None (Some ''Asia''),
      visa_row (Some 2016) (Some ''FR'') (Some 1) (Some ''Europe''),
      visa_row (Some 2017) (Some ''FR'') None (Some ''Europe''),
      visa_row (Some 2017) (Some ''DE'') None (Some ''Europe'')]"

text \<open>
  The sum of a group as the claim on null counts words it: the sum of the issued counts
  that are present; it is null when none is.
\<close>

definition sum_of_non_null_counts :: "'n::comm_monoid_add visa list \<Rightarrow> 'n option" where
  "sum_of_non_null_counts rs =
     (if \<forall>r\<in>set rs. number_of_issued_numerical r = None then None
      else Some (sum_list (map (\<lambda>r. the (number_of_issued_numerical r))
                   (filter (\<lambda>r. number_of_issued_numerical r \<noteq> None) rs))))"

lemma str_replace_char:
  "str_replace [a] new s = concat (map (\<lambda>c. if c = a then new else [c]) s)"
  by (induction s) auto

lemma clean_column_name_chars:
  "clean_column_name s = concat (map clean_char s)"
  unfolding clean_column_name_def str_replace_char
  by (induction s) (simp_all add: clean_char_def)

section \<open>Column names\<close>

lemma rename_columns_eq:
  "rename_columns df = Inr (df\<lparr>columns := map clean_column_name (columns df)\<rparr>)"
  by (simp add: rename_columns_def toDF_def new_column_names_def)

text \<open>
  The input \<open>number of issued\<close> shows what the job does with a space: the new name
  is \<open>number_of_issued\<close>, while deleting the four characters would give
  \<open>numberofissued\<close>.
\<close>

theorem column_name_space_becomes_underscore:
  "new_column_names \<lparr>columns = [''number of issued''], rows = ([] :: val option list list)\<rparr>
     = [''number_of_issued'']
   \<and> map delete_punctuation [''number of issued''] = [''numberofissued'']"
  by (simp add: new_column_names_def clean_column_name_chars clean_char_def
      delete_punctuation_def)

text \<open>
  Claim C1, as amended: the renaming step always succeeds and leaves the rows alone;
  every column keeps its position, and its new name is the old name with every space
  replaced by an underscore and every slash, period and comma deleted
  (\<open>clean_char\<close>, character by character).
\<close>

theorem rename_columns_cleans_every_name:
  "rename_columns df =
     Inr (df\<lparr>columns := map (\<lambda>name. concat (map clean_char name)) (columns df)\<rparr>)"
  by (simp add: rename_columns_eq clean_column_name_chars)

theorem rename_columns_cleans_every_name_witness:
  "rename_columns
     \<lparr>columns = [''number of issued, numerical'', ''a/b.c''], rows = [[Some (IntV 1), None]]\<rparr>
   = Inr \<lparr>columns = [''number_of_issued_numerical'', ''abc''], rows = [[Some (IntV 1), None]]\<rparr>"
  using rename_columns_cleans_every_name
    [of "\<lparr>columns = [''number of issued, numerical'', ''a/b.c''],
          rows = [[Some (IntV 1), None]]\<rparr>"]
  by (simp add: clean_char_def)

section \<open>Rows that are empty throughout\<close>

lemma all_null_count: "all_null row \<longleftrightarrow> count_non_null row = 0"
  by (induction row) (auto simp: all_null_def count_non_null_def)

lemma dropna_all_rows:
  "rows (dropna HowAll df) = filter (\<lambda>row. \<not> all_null row) (rows df)"
  by (auto simp: dropna_def all_null_count intro!: filter_cong)

lemma dropna_columns: "columns (dropna h df) = columns df"
  by (simp add: dropna_def Let_def)

lemma length_filter_compl:
  "length (filter (\<lambda>x. \<not> P x) xs) = length xs - length (filter P xs)"
  using sum_length_filter_compl [of P xs] by simp

lemma select_rows:
  "select resolver df names = Inr df' \<Longrightarrow>
     \<exists>idxs. resolve_all resolver (columns df) names = Inr idxs
       \<and> columns df' = names \<and> rows df' = map (project idxs) (rows df)"
  by (auto simp: select_def split: sum.splits)

lemma resolve_Inr:
  "resolve resolver cols name = Inr i \<Longrightarrow> i < length cols \<and> resolver (cols ! i) name"
proof -
  assume "resolve resolver cols name = Inr i"
  then have "filter (\<lambda>i. resolver (cols ! i) name) [0..<length cols] = [i]"
    by (auto simp: resolve_def split: list.splits)
  then have "i \<in> set (filter (\<lambda>i. resolver (cols ! i) name) [0..<length cols])"
    by simp
  then show ?thesis by simp
qed

lemma resolve_all_three:
  "resolve_all resolver cols [a, b, c] = Inr idxs \<Longrightarrow>
     \<exists>i j k. idxs = [i, j, k] \<and> resolve resolver cols a = Inr i
       \<and> resolve resolver cols b = Inr j \<and> resolve resolver cols c = Inr k"
  by (auto split: sum.splits)

lemma filter_data_rows:
  assumes "filter_data resolver df = Inr df'"
  shows "columns df' = [''year'', ''country'', ''number_of_issued_numerical'']
    \<and> (\<exists>iy ic ii.
          resolve resolver (columns df) ''year'' = Inr iy
        \<and> resolve resolver (columns df) ''country'' = Inr ic
        \<and> resolve resolver (columns df) ''number_of_issued_numerical'' = Inr ii
        \<and> rows df' = map (\<lambda>row. [row ! iy, row ! ic, row ! ii])
                        (filter (\<lambda>row. \<not> all_null row) (rows df)))"
proof -
  from assms obtain idxs where
    r: "resolve_all resolver (columns df)
          [''year'', ''country'', ''number_of_issued_numerical''] = Inr idxs"
    and c: "columns df' = [''year'', ''country'', ''number_of_issued_numerical'']"
    and rw: "rows df' = map (project idxs) (rows (dropna HowAll df))"
    unfolding filter_data_def by (auto dest!: select_rows simp: dropna_columns)
  from resolve_all_three [OF r] obtain iy ic ii where
    i: "idxs = [iy, ic, ii]"
      "resolve resolver (columns df) ''year'' = Inr iy"
      "resolve resolver (columns df) ''country'' = Inr ic"
      "resolve resolver (columns df) ''number_of_issued_numerical'' = Inr ii"
    by blast
  have "rows df' = map (\<lambda>row. [row ! iy, row ! ic, row ! ii])
                        (filter (\<lambda>row. \<not> all_null row) (rows df))"
    using rw i(1) by (simp add: dropna_all_rows project_def)
  with c i show ?thesis by blast
qed

text \<open>
  Claim C3: dropping with \<open>how='all'\<close> removes exactly the rows whose cells are all
  null. The rows with a cell present stay, in their order; no row that is empty
  throughout stays; the count after is the count before minus the number of empty
  rows, also after the projection, and that difference is what the job reports.
\<close>

theorem dropna_all_drops_exactly_empty_rows:
  "rows (dropna HowAll df) = filter (\<lambda>row. \<not> all_null row) (rows df)
   \<and> (\<forall>row\<in>set (rows df). all_null row \<longrightarrow> row \<notin> set (rows (dropna HowAll df)))
   \<and> (\<forall>row\<in>set (rows df). \<not> all_null row \<longrightarrow> row \<in> set (rows (dropna HowAll df)))
   \<and> length (rows (dropna HowAll df)) = length (rows df) - length (filter all_null (rows df))
   \<and> (\<forall>df'. filter_data resolver df = Inr df' \<longrightarrow>
          length (rows df') = length (rows df) - length (filter all_null (rows df))
        \<and> removed_count df df' = int (length (filter all_null (rows df))))"
proof -
  have a: "rows (dropna HowAll df) = filter (\<lambda>row. \<not> all_null row) (rows df)"
    by (rule dropna_all_rows)
  have b: "length (rows (dropna HowAll df))
             = length (rows df) - length (filter all_null (rows df))"
    unfolding a by (rule length_filter_compl)
  have le: "length (filter all_null (rows df)) \<le> length (rows df)"
    by (rule length_filter_le)
  have c: "length (rows df') = length (rows df) - length (filter all_null (rows df))
        \<and> removed_count df df' = int (length (filter all_null (rows df)))"
    if "filter_data resolver df = Inr df'" for df'
  proof -
    from that have "length (rows df') = length (rows (dropna HowAll df))"
      unfolding filter_data_def by (auto dest!: select_rows)
    with b le show ?thesis by (simp add: removed_count_def)
  qed
  from a b c show ?thesis by simp
qed

lemma filter_data_example: "filter_data (=) example_table = Inr example_filtered"
  by (simp add: example_table_def example_filtered_def filter_data_def select_def dropna_def
      count_non_null_def resolve_def upt_rec project_def)

theorem dropna_all_drops_exactly_empty_rows_witness:
  "rows (dropna HowAll example_table)
     = [[Some (IntV 2017), Some (StrV ''France''), None, Some (IntV 5)],
        [None, None, Some (StrV ''x''), None]]
   \<and> length (rows (dropna HowAll example_table)) = 2
   \<and> filter_data (=) example_table = Inr example_filtered
   \<and> length (rows example_filtered) = 2
   \<and> removed_count example_table example_filtered = 1"
  using dropna_all_drops_exactly_empty_rows [of example_table "(=)"] filter_data_example
  by (simp add: example_table_def example_filtered_def all_null_def)

section \<open>Year and country after the cleaning\<close>

text \<open>
  A row whose only value is the issued count survives the drop and the projection:
  the retained record has a null year and a null country.
\<close>

theorem filter_data_retains_null_year_and_country:
  "filter_data (=)
     \<lparr>columns = [''year'', ''country'', ''number_of_issued_numerical''],
      rows = [[None, None, Some (IntV 5)]]\<rparr>
     = Inr \<lparr>columns = [''year'', ''country'', ''number_of_issued_numerical''],
            rows = [[None, None, Some (IntV 5)]]\<rparr>
   \<and> \<not> year_country_present
        \<lparr>columns = [''year'', ''country'', ''number_of_issued_numerical''],
         rows = [[None, None, Some (IntV 5)]]\<rparr>"
  by (simp add: filter_data_def select_def dropna_def count_non_null_def resolve_def upt_rec
      project_def year_country_present_def)

text \<open>
  Claim C2, as amended: after the drop of empty rows and the projection, the table has
  exactly the columns year, country and issued count, and every retained record is the
  projection, to these three columns, of a loaded row that has at least one cell present
  in some column; the records come in the order of those rows. Each of the three fields
  of a retained record may be null.
\<close>

theorem filter_data_records_come_from_nonempty_rows:
  assumes "wf_table df" and "filter_data resolver df = Inr df'"
  shows "columns df' = [''year'', ''country'', ''number_of_issued_numerical'']
    \<and> (\<exists>iy ic ii.
          resolve resolver (columns df) ''year'' = Inr iy
        \<and> resolve resolver (columns df) ''country'' = Inr ic
        \<and> resolve resolver (columns df) ''number_of_issued_numerical'' = Inr ii
        \<and> rows df' = map (\<lambda>row. [row ! iy, row ! ic, row ! ii])
                        (filter (\<lambda>row. \<exists>cell\<in>set row. cell \<noteq> None) (rows df))
        \<and> (\<forall>row\<in>set (rows df). iy < length row \<and> ic < length row \<and> ii < length row)
        \<and> (\<forall>record\<in>set (rows df').
              \<exists>row\<in>set (rows df). (\<exists>cell\<in>set row. cell \<noteq> None)
                \<and> record = [row ! iy, row ! ic, row ! ii]))"
proof -
  from filter_data_rows [OF assms(2)] obtain iy ic ii where
    c: "columns df' = [''year'', ''country'', ''number_of_issued_numerical'']"
    and i: "resolve resolver (columns df) ''year'' = Inr iy"
      "resolve resolver (columns df) ''country'' = Inr ic"
      "resolve resolver (columns df) ''number_of_issued_numerical'' = Inr ii"
    and rw: "rows df' = map (\<lambda>row. [row ! iy, row ! ic, row ! ii])
                        (filter (\<lambda>row. \<not> all_null row) (rows df))"
    by blast
  have nn: "(\<lambda>row :: 'a option list. \<not> all_null row) = (\<lambda>row. \<exists>cell\<in>set row. cell \<noteq> None)"
    by (auto simp: all_null_def list_all_iff)
  have rw': "rows df' = map (\<lambda>row. [row ! iy, row ! ic, row ! ii])
                        (filter (\<lambda>row. \<exists>cell\<in>set row. cell \<noteq> None) (rows df))"
    using rw unfolding nn .
  from i have "iy < length (columns df)" "ic < length (columns df)" "ii < length (columns df)"
    by (auto dest: resolve_Inr)
  with assms(1) have bounds:
    "\<forall>row\<in>set (rows df). iy < length row \<and> ic < length row \<and> ii < length row"
    by (simp add: wf_table_def list_all_iff)
  have src: "\<forall>record\<in>set (rows df').
              \<exists>row\<in>set (rows df). (\<exists>cell\<in>set row. cell \<noteq> None)
                \<and> record = [row ! iy, row ! ic, row ! ii]"
    unfolding rw' by auto
  from c i rw' bounds src show ?thesis by blast
qed

theorem filter_data_records_come_from_nonempty_rows_witness:
  "wf_table example_table
   \<and> filter_data (=) example_table = Inr example_filtered
   \<and> columns example_filtered = [''year'', ''country'', ''number_of_issued_numerical'']
   \<and> rows example_filtered
       = map (\<lambda>row. [row ! 0, row ! 1, row ! 3])
           (filter (\<lambda>row. \<exists>cell\<in>set row. cell \<noteq> None) (rows example_table))"
proof -
  have wf: "wf_table example_table"
    by (simp add: wf_table_def example_table_def)
  from filter_data_records_come_from_nonempty_rows [OF wf filter_data_example]
  have "columns example_filtered = [''year'', ''country'', ''number_of_issued_numerical'']"
    by blast
  moreover have "rows example_filtered
       = map (\<lambda>row. [row ! 0, row ! 1, row ! 3])
           (filter (\<lambda>row. \<exists>cell\<in>set row. cell \<noteq> None) (rows example_table))"
    by (simp add: example_table_def example_filtered_def)
  ultimately show ?thesis using wf filter_data_example by blast
qed

section \<open>Country name correction\<close>

lemma foldl_best_mem:
  "foldl (\<lambda>best y. if (snd best :: int) < snd y then y else best) b xs \<in> set (b # xs)"
  by (induction xs arbitrary: b) (auto split: if_splits)

lemma foldl_best_ge_start:
  "(snd b :: int) \<le> snd (foldl (\<lambda>best y. if snd best < snd y then y else best) b xs)"
proof (induction xs arbitrary: b)
  case Nil
  show ?case by simp
next
  case (Cons x xs)
  show ?case
    using Cons.IH [of x] Cons.IH [of b] by (auto simp: not_less)
qed

lemma foldl_best_ge_all:
  "y \<in> set xs \<Longrightarrow> (snd y :: int) \<le> snd (foldl (\<lambda>best y. if snd best < snd y then y else best) b xs)"
proof (induction xs arbitrary: b)
  case Nil
  then show ?case by simp
next
  case (Cons x xs)
  show ?case
  proof (cases "y = x")
    case True
    then show ?thesis
      using foldl_best_ge_start [of x xs] foldl_best_ge_start [of b xs]
      by (auto simp: not_less) 
  next
    case False
    with Cons.prems have "y \<in> set xs" by simp
    then show ?thesis using Cons.IH by simp
  qed
qed

lemma max_by_score_Some:
  assumes "max_by_score ps = Some p"
  shows "p \<in> set ps \<and> (\<forall>q\<in>set ps. snd q \<le> snd p)"
proof (cases ps)
  case Nil
  with assms show ?thesis by simp
next
  case (Cons x xs)
  with assms have p: "p = foldl (\<lambda>best y. if snd best < snd y then y else best) x xs"
    by simp
  show ?thesis
    unfolding p Cons
    using foldl_best_mem [of x xs] foldl_best_ge_start [of x xs] foldl_best_ge_all [of _ xs x]
    by auto
qed

lemma extractOne_Some:
  assumes "extractOne scorer query choices = Some (best, score)"
  shows "best \<in> set choices \<and> score = scorer query best \<and> 0 \<le> score
     \<and> (\<forall>c\<in>set choices. scorer query c \<le> score)"
proof -
  let ?ps = "extractWithoutOrder scorer query choices 0"
  from assms have m: "max_by_score ?ps = Some (best, score)"
    by (simp add: extractOne_def)
  from max_by_score_Some [OF m] have mem: "(best, score) \<in> set ?ps"
    and mx: "\<forall>q\<in>set ?ps. snd q \<le> score" by auto
  from mem have a: "best \<in> set choices" "score = scorer query best" "0 \<le> score"
    by (auto simp: extractWithoutOrder_def)
  have "scorer query c \<le> score" if "c \<in> set choices" for c
  proof (cases "0 \<le> scorer query c")
    case True
    with that have "(c, scorer query c) \<in> set ?ps"
      by (auto simp: extractWithoutOrder_def)
    with mx show ?thesis by fastforce
  next
    case False
    with a(3) show ?thesis by simp
  qed
  with a show ?thesis by blast
qed

lemma extractOne_returns:
  assumes "c \<in> set choices" and "0 \<le> scorer query c"
  shows "\<exists>best score. extractOne scorer query choices = Some (best, score)"
proof -
  from assms have "(c, scorer query c) \<in> set (extractWithoutOrder scorer query choices 0)"
    by (auto simp: extractWithoutOrder_def)
  then obtain p ps where "extractWithoutOrder scorer query choices 0 = p # ps"
    by (cases "extractWithoutOrder scorer query choices 0") auto
  then show ?thesis
    by (cases "foldl (\<lambda>best y. if snd best < snd y then y else best) p ps")
       (simp add: extractOne_def)
qed

text \<open>
  Claim C4: the corrector returns the best match of the reference list when its score
  is at least 85 and the input otherwise. For a reference list that is not empty and
  a scorer with scores from 0 upwards, \<open>extractOne\<close> returns a pair: a name of the
  list together with its score, which no name of the list exceeds. The result is that
  name when the score reaches 85 and the input when it does not. An input that is a
  name of the list and scores higher against itself than every other name of the list
  (the library scores a name against itself 100) is returned as it is.
\<close>

theorem correct_country_name_best_match_or_input:
  assumes "countries \<noteq> []" and "\<forall>c\<in>set countries. 0 \<le> scorer name c"
  shows "\<exists>best score.
      extractOne scorer name countries = Some (best, score)
    \<and> best \<in> set countries \<and> score = scorer name best
    \<and> (\<forall>c\<in>set countries. scorer name c \<le> score)
    \<and> correct_country_name_udf scorer countries name = Inr (if 85 \<le> score then best else name)
    \<and> (score < 85 \<longrightarrow> correct_country_name_udf scorer countries name = Inr name)
    \<and> (name \<in> set countries \<and> (\<forall>c\<in>set countries. c \<noteq> name \<longrightarrow> scorer name c < scorer name name)
         \<longrightarrow> correct_country_name_udf scorer countries name = Inr name)"
proof -
  from assms obtain c where "c \<in> set countries" "0 \<le> scorer name c"
    by (cases countries) auto
  then obtain best score where
    e: "extractOne scorer name countries = Some (best, score)"
    using extractOne_returns [of c countries scorer name] by blast
  note p = extractOne_Some [OF e]
  have r: "correct_country_name_udf scorer countries name = Inr (if 85 \<le> score then best else name)"
    by (simp add: correct_country_name_udf_def correct_country_name_def e)
  have "best = name"
    if "name \<in> set countries" "\<forall>c\<in>set countries. c \<noteq> name \<longrightarrow> scorer name c < scorer name name"
  proof (rule ccontr)
    assume "best \<noteq> name"
    with that p have "scorer name best < scorer name name" by blast
    moreover from p that(1) have "scorer name name \<le> scorer name best" by blast
    ultimately show False by simp
  qed
  with r have "name \<in> set countries \<and> (\<forall>c\<in>set countries. c \<noteq> name \<longrightarrow> scorer name c < scorer name name)
         \<longrightarrow> correct_country_name_udf scorer countries name = Inr name"
    by simp
  with e p r show ?thesis by auto
qed


theorem correct_country_name_best_match_or_input_witness:
  "example_countries \<noteq> []
   \<and> list_all (\<lambda>c. 0 \<le> example_scorer ''Nige'' c) example_countries
   \<and> extractOne example_scorer ''Nige'' example_countries = Some (''Niger'', 90)
   \<and> correct_country_name_udf example_scorer example_countries ''Nige'' = Inr ''Niger''"
proof -
  have h1: "example_countries \<noteq> []"
    by (simp add: example_countries_def)
  have h2: "\<forall>c\<in>set example_countries. 0 \<le> example_scorer ''Nige'' c"
    by (simp add: example_countries_def example_scorer_def)
  have e: "extractOne example_scorer ''Nige'' example_countries = Some (''Niger'', 90)"
    by (simp add: extractOne_def extractWithoutOrder_def example_countries_def
        example_scorer_def)
  from correct_country_name_best_match_or_input
         [of example_countries example_scorer "''Nige''", OF h1 h2] e
  have "correct_country_name_udf example_scorer example_countries ''Nige'' = Inr ''Niger''"
    by auto
  with h1 h2 e show ?thesis by (simp add: list_all_iff)
qed

text \<open>
  Claim C10: whenever the corrector returns, for any threshold, the value is the input
  itself or a name of the reference list.
\<close>

theorem correct_country_name_output_is_input_or_canonical:
  assumes "correct_country_name scorer countries name threshold = Inr out"
  shows "out = name \<or> out \<in> set countries"
proof -
  from assms obtain best score where
    e: "extractOne scorer name countries = Some (best, score)"
    and o: "out = (if threshold \<le> score then best else name)"
    by (auto simp: correct_country_name_def split: option.splits)
  from extractOne_Some [OF e] o show ?thesis by auto
qed


theorem correct_country_name_output_is_input_or_canonical_witness:
  "correct_country_name example_scorer example_countries ''Japon'' 85 = Inr ''Japon''
   \<and> (''Japon'' = ''Japon'' \<or> ''Japon'' \<in> set example_countries)"
proof -
  have r: "correct_country_name example_scorer example_countries ''Japon'' 85 = Inr ''Japon''"
    by (simp add: correct_country_name_def extractOne_def extractWithoutOrder_def
        example_countries_def example_scorer_def)
  from correct_country_name_output_is_input_or_canonical [OF r] r show ?thesis by simp
qed

section \<open>Continent mapping\<close>

text \<open>
  Claim C5: the mapper never raises. Whatever the three lookups do, its result is a
  returned value; when the chain of lookups succeeds it is the continent name found,
  and when any of the three lookups raises it is \<open>None\<close>.
\<close>

theorem get_continent_name_never_raises:
  "(\<exists>v. get_continent_name to_alpha2 to_code to_name country_name = Inr v)
   \<and> (\<forall>e. get_continent_name to_alpha2 to_code to_name country_name \<noteq> Inl e)
   \<and> (\<forall>a k n. to_alpha2 country_name = Inr a \<and> to_code a = Inr k \<and> to_name k = Inr n
         \<longrightarrow> get_continent_name to_alpha2 to_code to_name country_name = Inr (Some n))
   \<and> ((\<exists>e. to_alpha2 country_name = Inl e)
       \<or> (\<exists>a e. to_alpha2 country_name = Inr a \<and> to_code a = Inl e)
       \<or> (\<exists>a k e. to_alpha2 country_name = Inr a \<and> to_code a = Inr k \<and> to_name k = Inl e)
         \<longrightarrow> get_continent_name to_alpha2 to_code to_name country_name = Inr None)"
  by (auto simp: get_continent_name_def try_except_def bind_exn_def split: sum.splits)

theorem get_continent_name_never_raises_witness:
  "get_continent_name example_alpha2 example_continent_code example_continent_name ''France''
     = Inr (Some ''Europe'')
   \<and> get_continent_name example_alpha2 example_continent_code example_continent_name ''total''
     = Inr None
   \<and> get_continent_name example_alpha2 example_continent_code example_continent_name
       ''Antarctica'' = Inr None"
  using get_continent_name_never_raises
    [of example_alpha2 example_continent_code example_continent_name "''France''"]
    get_continent_name_never_raises
    [of example_alpha2 example_continent_code example_continent_name "''total''"]
    get_continent_name_never_raises
    [of example_alpha2 example_continent_code example_continent_name "''Antarctica''"]
  by (simp add: example_alpha2_def example_continent_code_def example_continent_name_def)

section \<open>The queries\<close>

subsection \<open>Conditions\<close>

lemma sql_not_in_sentinels:
  "sql_not_in c sentinels = Some True \<longleftrightarrow> (\<exists>n. c = Some n \<and> n \<noteq> ''total'' \<and> n \<noteq> ''others'')"
  by (cases c) (auto simp: sql_not_in_def sentinels_def sql_not_def sql_or_def sql_eq_def)

lemma sql_not_in_null: "sql_not_in None sentinels = None"
  by (simp add: sql_not_in_def sentinels_def sql_not_def sql_or_def sql_eq_def)

lemma df_geo_where_iff:
  "df_geo_where r = Some True \<longleftrightarrow> (\<exists>n. country r = Some n \<and> n \<noteq> ''total'' \<and> n \<noteq> ''others'')"
  by (simp add: df_geo_where_def sql_not_in_sentinels)

lemma df_country_where_iff:
  "df_country_where r = Some True \<longleftrightarrow>
     (\<exists>n. country r = Some n \<and> n \<noteq> ''total'' \<and> n \<noteq> ''others'') \<and> year r = Some 2017"
proof -
  have "sql_eq (year r) (Some 2017) = Some True \<longleftrightarrow> year r = Some 2017"
    by (cases "year r") (auto simp: sql_eq_def)
  moreover have "sql_and p q = Some True \<longleftrightarrow> p = Some True \<and> q = Some True" for p q
    by (auto simp: sql_and_def)
  ultimately show ?thesis
    by (simp add: df_country_where_def sql_not_in_sentinels)
qed

lemma df_cont_where_iff: "df_cont_where r = Some True \<longleftrightarrow> continent r \<noteq> None"
  by (simp add: df_cont_where_def sql_is_not_null_def)

subsection \<open>Sums\<close>

lemma non_nulls_filter: "non_nulls vs = map the (filter (\<lambda>v. v \<noteq> None) vs)"
  by (induction vs rule: non_nulls.induct) auto

lemma non_nulls_empty: "non_nulls vs = [] \<longleftrightarrow> (\<forall>v\<in>set vs. v = None)"
  by (induction vs rule: non_nulls.induct) auto

lemma sql_sum_eq:
  "sql_sum vs = (if \<forall>v\<in>set vs. v = None then None else Some (sum_list (non_nulls vs)))"
  by (cases "non_nulls vs") (auto simp: sql_sum_def simp flip: non_nulls_empty)

lemma sql_sum_map:
  "sql_sum (map val rs) =
     (if \<forall>r\<in>set rs. val r = None then None
      else Some (sum_list (map (\<lambda>r. the (val r)) (filter (\<lambda>r. val r \<noteq> None) rs))))"
  by (auto simp: sql_sum_eq non_nulls_filter filter_map comp_def)

subsection \<open>Groups\<close>

lemma group_by_sum_keys: "map fst (group_by_sum key val rs) = remdups (map key rs)"
  by (simp add: group_by_sum_def comp_def)

lemma group_by_sum_mem:
  "(k, s) \<in> set (group_by_sum key val rs) \<longleftrightarrow>
     k \<in> key ` set rs \<and> s = sql_sum (map val (group_rows key k rs))"
  by (auto simp: group_by_sum_def)

lemma group_rows_where:
  "group_rows key k (sql_where cond rs) = filter (\<lambda>r. cond r = Some True \<and> key r = k) rs"
  by (auto simp: group_rows_def sql_where_def intro: filter_cong)

subsection \<open>Order\<close>

lemma mset_insert_by: "mset (insert_by le x xs) = add_mset x (mset xs)"
  by (induction xs) auto

lemma mset_order_by: "mset (order_by le xs) = mset xs"
  by (induction xs) (auto simp: order_by_def mset_insert_by)

lemma set_order_by: "set (order_by le xs) = set xs"
  using mset_order_by [of le xs] by (metis set_mset_mset)

lemma length_order_by: "length (order_by le xs) = length xs"
  using mset_order_by [of le xs] by (metis size_mset)

lemma sorted_insert_by:
  assumes tot: "\<And>a b. le a b \<or> le b a" and tr: "\<And>a b c. le a b \<Longrightarrow> le b c \<Longrightarrow> le a c"
  shows "sorted_wrt le xs \<Longrightarrow> sorted_wrt le (insert_by le x xs)"
proof (induction xs)
  case Nil
  show ?case by simp
next
  case (Cons y ys)
  show ?case
  proof (cases "le x y")
    case True
    with Cons.prems tr show ?thesis by auto
  next
    case False
    with tot have "le y x" by blast
    moreover have "set (insert_by le x ys) = insert x (set ys)"
      using mset_insert_by [of le x ys] by (metis set_mset_mset set_mset_add_mset_insert)
    ultimately show ?thesis using False Cons by auto
  qed
qed

lemma sorted_order_by:
  assumes "\<And>a b. le a b \<or> le b a" and "\<And>a b c. le a b \<Longrightarrow> le b c \<Longrightarrow> le a c"
  shows "sorted_wrt le (order_by le xs)"
proof (induction xs)
  case Nil
  show ?case by (simp add: order_by_def)
next
  case (Cons x xs)
  have "order_by le (x # xs) = insert_by le x (order_by le xs)"
    by (simp add: order_by_def)
  with Cons sorted_insert_by [of le "order_by le xs" x, OF assms] show ?case
    by simp
qed

lemma desc_nulls_last_total: "desc_nulls_last a b \<or> desc_nulls_last b a"
  by (auto simp: desc_nulls_last_def split: option.splits)

lemma desc_nulls_last_trans:
  "desc_nulls_last a b \<Longrightarrow> desc_nulls_last b c \<Longrightarrow> desc_nulls_last a c"
  by (auto simp: desc_nulls_last_def split: option.splits)

lemma asc_nulls_first_total: "asc_nulls_first a b \<or> asc_nulls_first b a"
  by (auto simp: asc_nulls_first_def split: option.splits)

lemma asc_nulls_first_trans:
  "asc_nulls_first a b \<Longrightarrow> asc_nulls_first b c \<Longrightarrow> asc_nulls_first a c"
  by (auto simp: asc_nulls_first_def split: option.splits)

lemma distinct_keys_order_by:
  "distinct (map fst xs) \<Longrightarrow> distinct (map fst (order_by le xs))"
proof -
  have "mset (map fst (order_by le xs)) = mset (map fst xs)"
    by (metis mset_map mset_order_by)
  then show "distinct (map fst xs) \<Longrightarrow> distinct (map fst (order_by le xs))"
    by (metis mset_eq_imp_distinct_iff)
qed

subsection \<open>The second query\<close>

lemma df_country_groups_mem:
  "(c, s) \<in> set (df_country_groups t) \<longleftrightarrow>
     (\<exists>n. c = Some n \<and> n \<noteq> ''total'' \<and> n \<noteq> ''others'')
     \<and> (\<exists>r\<in>set t. year r = Some 2017 \<and> country r = c)
     \<and> s = sql_sum (map number_of_issued_numerical
               (filter (\<lambda>r. year r = Some 2017 \<and> country r = c) t))"
proof -
  let ?ok = "\<exists>n. c = Some n \<and> n \<noteq> ''total'' \<and> n \<noteq> ''others''"
  have k: "c \<in> country ` set (sql_where df_country_where t) \<longleftrightarrow>
             ?ok \<and> (\<exists>r\<in>set t. year r = Some 2017 \<and> country r = c)"
    by (auto simp: sql_where_def df_country_where_iff image_iff)
  have f: "filter (\<lambda>r. df_country_where r = Some True \<and> country r = c) t
         = filter (\<lambda>r. year r = Some 2017 \<and> country r = c) t" if ?ok
    using that by (auto simp: df_country_where_iff intro!: filter_cong)
  have "(c, s) \<in> set (df_country_groups t) \<longleftrightarrow>
          c \<in> country ` set (sql_where df_country_where t)
          \<and> s = sql_sum (map number_of_issued_numerical
                  (filter (\<lambda>r. df_country_where r = Some True \<and> country r = c) t))"
    by (simp only: df_country_groups_def set_order_by group_by_sum_mem group_rows_where)
  with k f show ?thesis by auto
qed

lemma df_country_groups_sorted:
  "sorted_wrt (\<lambda>a b. desc_nulls_last (snd a) (snd b)) (df_country_groups t)"
  unfolding df_country_groups_def
proof (rule sorted_order_by)
  fix a b c :: "string option \<times> 'a option"
  show "desc_nulls_last (snd a) (snd b) \<or> desc_nulls_last (snd b) (snd a)"
    by (rule desc_nulls_last_total)
  show "desc_nulls_last (snd a) (snd b) \<Longrightarrow> desc_nulls_last (snd b) (snd c)
          \<Longrightarrow> desc_nulls_last (snd a) (snd c)"
    by (rule desc_nulls_last_trans)
qed

lemma df_country_groups_distinct: "distinct (map fst (df_country_groups t))"
  unfolding df_country_groups_def
  by (rule distinct_keys_order_by) (simp add: group_by_sum_keys)

lemma take_sorted_wrt_rest:
  assumes "sorted_wrt le xs" and "x \<in> set xs"
  shows "x \<in> set (take n xs) \<or> (length (take n xs) = n \<and> (\<forall>y\<in>set (take n xs). le y x))"
proof (cases "x \<in> set (take n xs)")
  case True
  then show ?thesis by simp
next
  case False
  have split: "xs = take n xs @ drop n xs" by simp
  with assms(2) False have d: "x \<in> set (drop n xs)"
    by (metis Un_iff set_append)
  then have "n < length xs" by (cases "n < length xs") auto
  then have len: "length (take n xs) = n" by simp
  from assms(1) have "sorted_wrt le (take n xs @ drop n xs)" by simp
  then have "\<forall>y\<in>set (take n xs). \<forall>z\<in>set (drop n xs). le y z"
    unfolding sorted_wrt_append by blast
  with d len show ?thesis by blast
qed

lemma q2_scenario_result:
  "df_country (q2_scenario k1 k2 k3) = [(Some ''US'', Some 300), (Some ''FR'', Some 100)]"
  by (simp add: df_country_def df_country_groups_def q2_scenario_def visa_row_def
      group_by_sum_def group_rows_def sql_where_def df_country_where_def sql_and_def
      sql_not_in_def sql_not_def sql_or_def sql_eq_def sentinels_def sql_sum_def
      order_by_def desc_nulls_last_def)

text \<open>
  Claim C6: the second query. Its result has at most ten rows, in descending order of
  the sum (null sums last), one row per country. Every row is for a country that is
  not null, not \<open>total\<close> and not \<open>others\<close> and occurs in a row of 2017, and
  carries the sum of the issued counts over the rows of 2017 of that country. A country
  of 2017 that is no sentinel and is missing from the result was cut by the limit: the
  result then has ten rows, each ranked no lower than that country's sum. On the rows
  (2017, FR, 100), (2017, US, 300), (2017, total, 400) the result is US with 300, then
  FR with 100.
\<close>

theorem df_country_top_ten_of_2017:
  fixes japan_visa :: "'n::{comm_monoid_add,linorder} visa list"
  shows
  "length (df_country japan_visa) \<le> 10
   \<and> sorted_wrt (\<lambda>a b. desc_nulls_last (snd a) (snd b)) (df_country japan_visa)
   \<and> distinct (map fst (df_country japan_visa))
   \<and> (\<forall>(c, s)\<in>set (df_country japan_visa).
        (\<exists>n. c = Some n \<and> n \<noteq> ''total'' \<and> n \<noteq> ''others'')
        \<and> (\<exists>r\<in>set japan_visa. year r = Some 2017 \<and> country r = c)
        \<and> s = sql_sum (map number_of_issued_numerical
                 (filter (\<lambda>r. year r = Some 2017 \<and> country r = c) japan_visa)))
   \<and> (\<forall>r\<in>set japan_visa.
        year r = Some 2017 \<and> (\<exists>n. country r = Some n \<and> n \<noteq> ''total'' \<and> n \<noteq> ''others'') \<longrightarrow>
          country r \<in> fst ` set (df_country japan_visa)
          \<or> (length (df_country japan_visa) = 10
             \<and> (\<forall>(c, s)\<in>set (df_country japan_visa).
                  desc_nulls_last s
                    (sql_sum (map number_of_issued_numerical
                       (filter (\<lambda>r'. year r' = Some 2017 \<and> country r' = country r) japan_visa))))))
   \<and> df_country (q2_scenario k1 k2 k3) = [(Some ''US'', Some 300), (Some ''FR'', Some 100)]"
proof -
  let ?G = "df_country_groups japan_visa"
  let ?sum = "\<lambda>c. sql_sum (map number_of_issued_numerical
                 (filter (\<lambda>r. year r = Some 2017 \<and> country r = c) japan_visa))"
  have d: "df_country japan_visa = take 10 ?G" by (simp add: df_country_def)
  have a: "length (df_country japan_visa) \<le> 10" by (simp add: d)
  have b: "sorted_wrt (\<lambda>a b. desc_nulls_last (snd a) (snd b)) (df_country japan_visa)"
    unfolding d using df_country_groups_sorted [of japan_visa] by (rule sorted_wrt_take)
  have c: "distinct (map fst (df_country japan_visa))"
    unfolding d take_map [symmetric] using df_country_groups_distinct [of japan_visa]
    by (rule distinct_take)
  have e: "\<forall>(c, s)\<in>set (df_country japan_visa).
        (\<exists>n. c = Some n \<and> n \<noteq> ''total'' \<and> n \<noteq> ''others'')
        \<and> (\<exists>r\<in>set japan_visa. year r = Some 2017 \<and> country r = c)
        \<and> s = ?sum c"
  proof (clarify)
    fix c s assume "(c, s) \<in> set (df_country japan_visa)"
    then have "(c, s) \<in> set ?G" unfolding d by (rule in_set_takeD)
    then show "(\<exists>n. c = Some n \<and> n \<noteq> ''total'' \<and> n \<noteq> ''others'')
        \<and> (\<exists>r\<in>set japan_visa. year r = Some 2017 \<and> country r = c) \<and> s = ?sum c"
      by (simp add: df_country_groups_mem)
  qed
  have f: "country r \<in> fst ` set (df_country japan_visa)
          \<or> (length (df_country japan_visa) = 10
             \<and> (\<forall>(c, s)\<in>set (df_country japan_visa). desc_nulls_last s (?sum (country r))))"
    if r: "r \<in> set japan_visa" "year r = Some 2017"
      "\<exists>n. country r = Some n \<and> n \<noteq> ''total'' \<and> n \<noteq> ''others''" for r
  proof -
    from r have m: "(country r, ?sum (country r)) \<in> set ?G"
      unfolding df_country_groups_mem by blast
    from take_sorted_wrt_rest [OF df_country_groups_sorted m, of 10]
    show ?thesis unfolding d by force
  qed
  from a b c e f q2_scenario_result show ?thesis by blast
qed

theorem df_country_top_ten_of_2017_witness:
  "length (df_country example_visa) \<le> 10
   \<and> df_country example_visa = [(Some ''US'', Some 300), (Some ''FR'', Some 100), (Some ''DE'', None)]
   \<and> df_country (q2_scenario None None None) = [(Some ''US'', Some 300), (Some ''FR'', Some 100)]"
proof -
  have "df_country example_visa
          = [(Some ''US'', Some 300), (Some ''FR'', Some 100), (Some ''DE'', None)]"
    by code_simp
  with df_country_top_ten_of_2017 [of example_visa None None None] show ?thesis
    by simp
qed

subsection \<open>Sums over groups\<close>

lemma sql_sum_counts:
  "sql_sum (map number_of_issued_numerical rs) = sum_of_non_null_counts rs"
  by (simp add: sql_sum_map sum_of_non_null_counts_def)

lemma df_geo_mem:
  "((y, c), s) \<in> set (df_geo t) \<longleftrightarrow>
     (\<exists>n. c = Some n \<and> n \<noteq> ''total'' \<and> n \<noteq> ''others'')
     \<and> (\<exists>r\<in>set t. year r = y \<and> country r = c)
     \<and> s = sql_sum (map number_of_issued_numerical
               (filter (\<lambda>r. year r = y \<and> country r = c) t))"
proof -
  let ?ok = "\<exists>n. c = Some n \<and> n \<noteq> ''total'' \<and> n \<noteq> ''others''"
  have k: "(y, c) \<in> (\<lambda>r. (year r, country r)) ` set (sql_where df_geo_where t) \<longleftrightarrow>
             ?ok \<and> (\<exists>r\<in>set t. year r = y \<and> country r = c)"
    by (auto simp: sql_where_def df_geo_where_iff image_iff)
  have f: "filter (\<lambda>r. df_geo_where r = Some True \<and> (year r, country r) = (y, c)) t
         = filter (\<lambda>r. year r = y \<and> country r = c) t" if ?ok
    using that by (auto simp: df_geo_where_iff intro!: filter_cong)
  have "((y, c), s) \<in> set (df_geo t) \<longleftrightarrow>
          (y, c) \<in> (\<lambda>r. (year r, country r)) ` set (sql_where df_geo_where t)
          \<and> s = sql_sum (map number_of_issued_numerical
                  (filter (\<lambda>r. df_geo_where r = Some True \<and> (year r, country r) = (y, c)) t))"
    by (simp only: df_geo_def set_order_by group_by_sum_mem group_rows_where)
  with k f show ?thesis by auto
qed

lemma df_cont_mem:
  "((y, k), s) \<in> set (df_cont t) \<longleftrightarrow>
     k \<noteq> None
     \<and> (\<exists>r\<in>set t. year r = y \<and> continent r = k)
     \<and> s = sql_sum (map number_of_issued_numerical
               (filter (\<lambda>r. year r = y \<and> continent r = k) t))"
proof -
  have k: "(y, k) \<in> (\<lambda>r. (year r, continent r)) ` set (sql_where df_cont_where t) \<longleftrightarrow>
             k \<noteq> None \<and> (\<exists>r\<in>set t. year r = y \<and> continent r = k)"
    by (auto simp: sql_where_def df_cont_where_iff image_iff)
  have f: "filter (\<lambda>r. df_cont_where r = Some True \<and> (year r, continent r) = (y, k)) t
         = filter (\<lambda>r. year r = y \<and> continent r = k) t" if "k \<noteq> None"
    using that by (auto simp: df_cont_where_iff intro!: filter_cong)
  have "((y, k), s) \<in> set (df_cont t) \<longleftrightarrow>
          (y, k) \<in> (\<lambda>r. (year r, continent r)) ` set (sql_where df_cont_where t)
          \<and> s = sql_sum (map number_of_issued_numerical
                  (filter (\<lambda>r. df_cont_where r = Some True \<and> (year r, continent r) = (y, k)) t))"
    by (simp only: df_cont_def group_by_sum_mem group_rows_where)
  note main = this
  show ?thesis
  proof (cases "k = None")
    case True
    with main k show ?thesis by simp
  next
    case False
    with main k f [OF False] show ?thesis by simp
  qed
qed

lemma df_geo_sorted:
  "sorted_wrt (\<lambda>a b. asc_nulls_first (fst (fst a)) (fst (fst b))) (df_geo t)"
  unfolding df_geo_def
proof (rule sorted_order_by)
  fix a b c :: "(int option \<times> string option) \<times> 'a option"
  show "asc_nulls_first (fst (fst a)) (fst (fst b)) \<or> asc_nulls_first (fst (fst b)) (fst (fst a))"
    by (rule asc_nulls_first_total)
  show "asc_nulls_first (fst (fst a)) (fst (fst b)) \<Longrightarrow> asc_nulls_first (fst (fst b)) (fst (fst c))
          \<Longrightarrow> asc_nulls_first (fst (fst a)) (fst (fst c))"
    by (rule asc_nulls_first_trans)
qed

text \<open>
  A group whose issued counts are all null: the sum of its non-null counts is the empty
  sum 0, and the query returns a null sum for it.
\<close>

theorem sum_of_all_null_group_is_null:
  "df_country [visa_row (Some 2017) (Some ''FR'') (None :: int option) (Some ''Europe'')]
     = [(Some ''FR'', None)]
   \<and> sum_list (non_nulls [None :: int option]) = 0"
  by (simp add: df_country_def df_country_groups_def visa_row_def
        group_by_sum_def group_rows_def sql_where_def df_country_where_def sql_and_def
        sql_not_in_def sql_not_def sql_or_def sql_eq_def sentinels_def sql_sum_def
        order_by_def desc_nulls_last_def)


text \<open>
  Claim C7, as amended: in each of the three queries the sum of every group of the
  result is the sum of the issued counts that are present among the rows of the group,
  so that a null count adds nothing to it; for a group with no count present the sum is
  null. The rows of a group are the rows of the table with the group's key (and the
  year 2017 in the second query).
\<close>

theorem grouped_sums_skip_null_counts:
  fixes t :: "'n::{comm_monoid_add,linorder} visa list"
  shows
  "(\<forall>((y, k), s)\<in>set (df_cont t).
      s = sum_of_non_null_counts (filter (\<lambda>r. year r = y \<and> continent r = k) t))
   \<and> (\<forall>(c, s)\<in>set (df_country t).
      s = sum_of_non_null_counts (filter (\<lambda>r. year r = Some 2017 \<and> country r = c) t))
   \<and> (\<forall>((y, c), s)\<in>set (df_geo t).
      s = sum_of_non_null_counts (filter (\<lambda>r. year r = y \<and> country r = c) t))"
proof -
  have "(c, s) \<in> set (df_country_groups t)" if "(c, s) \<in> set (df_country t)" for c s
    using that unfolding df_country_def by (rule in_set_takeD)
  then show ?thesis
    by (auto simp: df_cont_mem df_geo_mem df_country_groups_mem sql_sum_counts)
qed

theorem grouped_sums_skip_null_counts_witness:
  "df_cont example_visa
     = [((Some 2017, Some ''North America''), Some 300), ((Some 2017, Some ''Asia''), Some 7),
        ((None, Some ''Asia''), None), ((Some 2016, Some ''Europe''), Some 1),
        ((Some 2017, Some ''Europe''), Some 100)]
   \<and> sum_of_non_null_counts
         (filter (\<lambda>r. year r = Some 2017 \<and> continent r = Some ''Europe'') example_visa)
       = Some 100
   \<and> sum_of_non_null_counts
         (filter (\<lambda>r. year r = None \<and> continent r = Some ''Asia'') example_visa)
       = None"
proof -
  have q: "df_cont example_visa
     = [((Some 2017, Some ''North America''), Some 300), ((Some 2017, Some ''Asia''), Some 7),
        ((None, Some ''Asia''), None), ((Some 2016, Some ''Europe''), Some 1),
        ((Some 2017, Some ''Europe''), Some 100)]"
    by code_simp
  from grouped_sums_skip_null_counts [of example_visa] q
  have "Some 100 = sum_of_non_null_counts
          (filter (\<lambda>r. year r = Some 2017 \<and> continent r = Some ''Europe'') example_visa)"
    and "None = sum_of_non_null_counts
          (filter (\<lambda>r. year r = None \<and> continent r = Some ''Asia'') example_visa)"
    by simp_all
  with q show ?thesis by simp
qed

subsection \<open>Rows with a null country\<close>

lemma sql_where_filter:
  assumes "\<And>r. cond r = Some True \<Longrightarrow> P r"
  shows "sql_where cond (filter P t) = sql_where cond t"
  using assms by (auto simp: sql_where_def intro!: filter_cong)

lemma sql_where_map:
  "sql_where cond (map g t) = map g (sql_where (\<lambda>r. cond (g r)) t)"
  by (simp add: sql_where_def filter_map comp_def)

lemma group_by_sum_map:
  "group_by_sum key val (map g rs) = group_by_sum (\<lambda>r. key (g r)) (\<lambda>r. val (g r)) rs"
  by (simp add: group_by_sum_def group_rows_def filter_map comp_def)

text \<open>
  Claim C9: for a row with a null country the condition \<open>country NOT IN ('total',
  'others')\<close> is unknown, so the conditions of the second and the third query are not
  true for it. Removing the rows with a null country from the table changes neither
  result, and no row of either result has a null country. The condition of the first
  query is the presence of the continent alone: its result does not depend on the
  country column at all, and every row with a continent, whatever its country, has its
  group of year and continent in the result.
\<close>

theorem null_country_rows_only_count_in_continent_query:
  fixes t :: "'n::{comm_monoid_add,linorder} visa list"
  shows
  "(country r = None \<longrightarrow>
      sql_not_in (country r) sentinels = None
      \<and> df_country_where r \<noteq> Some True \<and> df_geo_where r = None)
   \<and> df_country (filter (\<lambda>r. country r \<noteq> None) t) = df_country t
   \<and> df_geo (filter (\<lambda>r. country r \<noteq> None) t) = df_geo t
   \<and> (\<forall>(c, s)\<in>set (df_country t). c \<noteq> None)
   \<and> (\<forall>((y, c), s)\<in>set (df_geo t). c \<noteq> None)
   \<and> df_cont_where r = Some (continent r \<noteq> None)
   \<and> df_cont (map (\<lambda>r. r\<lparr>country := f r\<rparr>) t) = df_cont t
   \<and> (\<forall>r\<in>set t. continent r \<noteq> None \<longrightarrow> (year r, continent r) \<in> fst ` set (df_cont t))"
proof -
  have a: "country r = None \<longrightarrow>
      sql_not_in (country r) sentinels = None
      \<and> df_country_where r \<noteq> Some True \<and> df_geo_where r = None"
    by (auto simp: df_country_where_iff df_geo_where_def sql_not_in_null)
  have b: "df_country (filter (\<lambda>r. country r \<noteq> None) t) = df_country t"
    unfolding df_country_def df_country_groups_def
    by (subst sql_where_filter) (auto simp: df_country_where_iff)
  have c: "df_geo (filter (\<lambda>r. country r \<noteq> None) t) = df_geo t"
    unfolding df_geo_def
    by (subst sql_where_filter) (auto simp: df_geo_where_iff)
  have "c \<noteq> None" if "(c, s) \<in> set (df_country t)" for c s
  proof -
    from that have "(c, s) \<in> set (df_country_groups t)"
      unfolding df_country_def by (rule in_set_takeD)
    then show ?thesis by (auto simp: df_country_groups_mem)
  qed
  then have d: "\<forall>(c, s)\<in>set (df_country t). c \<noteq> None"
    by blast
  have e: "\<forall>((y, c), s)\<in>set (df_geo t). c \<noteq> None"
    by (auto simp: df_geo_mem)
  have g: "df_cont_where r = Some (continent r \<noteq> None)"
    by (simp add: df_cont_where_def sql_is_not_null_def)
  have h: "df_cont (map (\<lambda>r. r\<lparr>country := f r\<rparr>) t) = df_cont t"
  proof -
    have w: "(\<lambda>r. df_cont_where (r\<lparr>country := f r\<rparr>)) = (df_cont_where :: 'n visa \<Rightarrow> bool option)"
      by (simp add: df_cont_where_def fun_eq_iff)
    show ?thesis
      by (simp add: df_cont_def sql_where_map group_by_sum_map w)
  qed
  have i: "\<forall>r\<in>set t. continent r \<noteq> None \<longrightarrow> (year r, continent r) \<in> fst ` set (df_cont t)"
  proof (intro ballI impI)
    fix r assume "r \<in> set t" "continent r \<noteq> None"
    then have "((year r, continent r), sql_sum (map number_of_issued_numerical
               (filter (\<lambda>r'. year r' = year r \<and> continent r' = continent r) t))) \<in> set (df_cont t)"
      unfolding df_cont_mem by blast
    then show "(year r, continent r) \<in> fst ` set (df_cont t)" by force
  qed
  from a b c d e g h i show ?thesis by blast
qed

theorem null_country_rows_only_count_in_continent_query_witness:
  "country (visa_row (Some 2017) None (Some (7::int)) (Some ''Asia'')) = None
   \<and> df_geo_where (visa_row (Some 2017) None (Some (7::int)) (Some ''Asia'')) = None
   \<and> df_country (filter (\<lambda>r. country r \<noteq> None) example_visa) = df_country example_visa
   \<and> df_geo (filter (\<lambda>r. country r \<noteq> None) example_visa) = df_geo example_visa
   \<and> (Some 2017, Some ''Asia'') \<in> fst ` set (df_cont example_visa)"
proof -
  let ?r = "visa_row (Some 2017) None (Some (7::int)) (Some ''Asia'')"
  have m: "?r \<in> set example_visa"
    by (simp add: example_visa_def)
  have n: "country ?r = None" "continent ?r \<noteq> None"
    "year ?r = Some 2017" "continent ?r = Some ''Asia''"
    by (simp_all add: visa_row_def)
  note c9 = null_country_rows_only_count_in_continent_query [of ?r example_visa]
  from c9 n(1) have a: "df_geo_where ?r = None" by blast
  from c9 have b:
    "df_country (filter (\<lambda>r. country r \<noteq> None) example_visa) = df_country example_visa"
    "df_geo (filter (\<lambda>r. country r \<noteq> None) example_visa) = df_geo example_visa"
    by blast+
  from c9 m n(2) have "(year ?r, continent ?r) \<in> fst ` set (df_cont example_visa)"
    by blast
  with n have "(Some 2017, Some ''Asia'') \<in> fst ` set (df_cont example_visa)"
    by simp
  with a b n(1) show ?thesis by blast
qed

subsection \<open>Row order\<close>

lemma mset_non_nulls:
  "mset (non_nulls vs) = image_mset the (filter_mset (\<lambda>v. v \<noteq> None) (mset vs))"
  by (simp add: non_nulls_filter)

lemma sql_sum_mset:
  fixes vs ws :: "'n::comm_monoid_add option list"
  assumes "mset vs = mset ws"
  shows "sql_sum vs = sql_sum ws"
proof -
  from assms have s: "set vs = set ws" by (rule mset_eq_setD)
  from assms have "mset (non_nulls vs) = mset (non_nulls ws)"
    by (simp add: mset_non_nulls)
  then have "sum_mset (mset (non_nulls vs)) = sum_mset (mset (non_nulls ws))"
    by simp
  then have "sum_list (non_nulls vs) = sum_list (non_nulls ws)"
    by (simp add: sum_mset_sum_list)
  with s show ?thesis by (simp add: sql_sum_eq)
qed

lemma group_sum_mset:
  fixes t t' :: "'n::comm_monoid_add visa list"
  assumes "mset t = mset t'"
  shows "sql_sum (map number_of_issued_numerical (filter P t))
       = sql_sum (map number_of_issued_numerical (filter P t'))"
proof (rule sql_sum_mset)
  from assms have "mset (filter P t) = mset (filter P t')"
    by (metis mset_filter)
  then show "mset (map number_of_issued_numerical (filter P t))
           = mset (map number_of_issued_numerical (filter P t'))"
    by (metis mset_map)
qed

text \<open>
  The groups of the three queries and their sums depend on which rows the table holds,
  not on the order in which the rows are visited: two tables with the same rows in
  different orders give the same set of result rows (for the second query, before the
  limit).
\<close>

lemma grouped_sums_independent_of_row_order:
  fixes t t' :: "'n::{comm_monoid_add,linorder} visa list"
  assumes "mset t = mset t'"
  shows "set (df_cont t) = set (df_cont t')
       \<and> set (df_country_groups t) = set (df_country_groups t')
       \<and> set (df_geo t) = set (df_geo t')"
proof -
  from assms have s: "set t = set t'" by (rule mset_eq_setD)
  note g = group_sum_mset [OF assms]
  have "set (df_cont t) = set (df_cont t')"
    by (auto simp: df_cont_mem s g)
  moreover have "set (df_country_groups t) = set (df_country_groups t')"
    by (auto simp: df_country_groups_mem s g)
  moreover have "set (df_geo t) = set (df_geo t')"
    by (auto simp: df_geo_mem s g)
  ultimately show ?thesis by blast
qed

end
